theory Spec2Isabelle
  imports Main
begin

section \<open>Data model (frontend/src/store/alertsSlice.ts)\<close>

datatype severity = Low | Medium | High | Critical

datatype status = Active | Acknowledged | Resolved

text \<open>
  The \<open>Alert\<close> interface. Optional members are \<open>option\<close>-valued (\<open>None\<close> is
  \<open>undefined\<close>). The field \<open>id\<close> is named \<open>id_of\<close>, since \<open>id\<close> is the identity
  function of HOL. The members \<open>acknowledged_by\<close> and \<open>resolved_by\<close> are not declared by
  the interface; the object spread of \<open>updateAlert\<close> adds them to a stored record when
  the payload of a channel event carries them, so the record has them.
\<close>

record alert =
  id_of :: string
  alert_type :: string
  severity :: severity
  message :: string
  module :: string
  status :: status
  created_at :: string
  acknowledged_at :: "string option"
  resolved_at :: "string option"
  location :: "string option"
  affected_systems :: "string list option"
  recommended_actions :: "string list option"
  acknowledged_by :: "string option"
  resolved_by :: "string option"

text \<open>
  The payload of \<open>updateAlert\<close>: an object with an \<open>id\<close> and any subset of the other
  keys. For every key, \<open>None\<close> says that the payload has no such key; for an optional
  member, \<open>Some None\<close> is a key that is present and holds \<open>undefined\<close>, which the
  spread copies like any other value.
\<close>

record alert_patch =
  p_id :: string
  p_alert_type :: "string option"
  p_severity :: "severity option"
  p_message :: "string option"
  p_module :: "string option"
  p_status :: "status option"
  p_created_at :: "string option"
  p_acknowledged_at :: "string option option"
  p_resolved_at :: "string option option"
  p_location :: "string option option"
  p_affected_systems :: "string list option option"
  p_recommended_actions :: "string list option option"
  p_acknowledged_by :: "string option option"
  p_resolved_by :: "string option option"

text \<open>The payload that has the key \<open>id\<close> only.\<close>

definition patch_of_id :: "string \<Rightarrow> alert_patch" where
  "patch_of_id i =
     \<lparr>p_id = i, p_alert_type = None, p_severity = None, p_message = None, p_module = None,
      p_status = None, p_created_at = None, p_acknowledged_at = None, p_resolved_at = None,
      p_location = None, p_affected_systems = None, p_recommended_actions = None,
      p_acknowledged_by = None, p_resolved_by = None\<rparr>"

record filters_rec =
  filter_status :: string
  filter_severity :: string
  filter_module :: string

record filters_patch =
  fp_status :: "string option"
  fp_severity :: "string option"
  fp_module :: "string option"

record alerts_state =
  alerts :: "alert list"
  activeAlerts :: "alert list"
  isLoading :: bool
  error :: "string option"
  filters :: filters_rec

definition initialState :: alerts_state where
  "initialState =
     \<lparr>alerts = [], activeAlerts = [], isLoading = False, error = None,
      filters = \<lparr>filter_status = ''active'', filter_severity = '''', filter_module = ''''\<rparr>\<rparr>"

section \<open>Array primitives of the reducers\<close>

text \<open>\<open>Array.prototype.findIndex\<close>: the index of the first match; \<open>None\<close> is \<open>-1\<close>.\<close>

fun findIndex :: "('a \<Rightarrow> bool) \<Rightarrow> 'a list \<Rightarrow> nat option" where
  "findIndex P [] = None"
| "findIndex P (x # xs) = (if P x then Some 0 else map_option Suc (findIndex P xs))"

text \<open>\<open>xs.splice(i, 1)\<close>: the array without its element at index \<open>i\<close>.\<close>

definition splice1 :: "nat \<Rightarrow> 'a list \<Rightarrow> 'a list" where
  "splice1 i xs = take i xs @ drop (Suc i) xs"

text \<open>The object spread \<open>{ ...a, ...p }\<close>: every key of the payload overrides.\<close>

definition spread :: "alert \<Rightarrow> alert_patch \<Rightarrow> alert" where
  "spread a p =
     \<lparr>id_of = p_id p,
      alert_type = (case p_alert_type p of None \<Rightarrow> alert_type a | Some v \<Rightarrow> v),
      severity = (case p_severity p of None \<Rightarrow> severity a | Some v \<Rightarrow> v),
      message = (case p_message p of None \<Rightarrow> message a | Some v \<Rightarrow> v),
      module = (case p_module p of None \<Rightarrow> module a | Some v \<Rightarrow> v),
      status = (case p_status p of None \<Rightarrow> status a | Some v \<Rightarrow> v),
      created_at = (case p_created_at p of None \<Rightarrow> created_at a | Some v \<Rightarrow> v),
      acknowledged_at = (case p_acknowledged_at p of None \<Rightarrow> acknowledged_at a | Some v \<Rightarrow> v),
      resolved_at = (case p_resolved_at p of None \<Rightarrow> resolved_at a | Some v \<Rightarrow> v),
      location = (case p_location p of None \<Rightarrow> location a | Some v \<Rightarrow> v),
      affected_systems =
        (case p_affected_systems p of None \<Rightarrow> affected_systems a | Some v \<Rightarrow> v),
      recommended_actions =
        (case p_recommended_actions p of None \<Rightarrow> recommended_actions a | Some v \<Rightarrow> v),
      acknowledged_by = (case p_acknowledged_by p of None \<Rightarrow> acknowledged_by a | Some v \<Rightarrow> v),
      resolved_by = (case p_resolved_by p of None \<Rightarrow> resolved_by a | Some v \<Rightarrow> v)\<rparr>"

section \<open>The reducers of the slice\<close>

text \<open>
  A reducer of \<open>createSlice\<close> runs on a draft of the state and the store keeps the
  finished draft as an immutable tree, so a record that was put into both arrays is two
  values from then on: a write through one array never shows in the other. The model
  passes the state as a value.
\<close>

definition addAlert :: "alerts_state \<Rightarrow> alert \<Rightarrow> alerts_state" where
  "addAlert state payload =
     state\<lparr>alerts := payload # alerts state,
           activeAlerts := (if status payload = Active then payload # activeAlerts state
                            else activeAlerts state)\<rparr>"

definition updateAlert :: "alerts_state \<Rightarrow> alert_patch \<Rightarrow> alerts_state" where
  "updateAlert state payload =
     state\<lparr>alerts :=
             (case findIndex (\<lambda>a. id_of a = p_id payload) (alerts state) of
                None \<Rightarrow> alerts state
              | Some index \<Rightarrow> (alerts state)[index := spread (alerts state ! index) payload]),
           activeAlerts :=
             (case findIndex (\<lambda>a. id_of a = p_id payload) (activeAlerts state) of
                None \<Rightarrow> activeAlerts state
              | Some activeIndex \<Rightarrow>
                  if p_status payload = Some Active
                  then (activeAlerts state)
                         [activeIndex := spread (activeAlerts state ! activeIndex) payload]
                  else splice1 activeIndex (activeAlerts state))\<rparr>"

definition setFilters :: "alerts_state \<Rightarrow> filters_patch \<Rightarrow> alerts_state" where
  "setFilters state payload =
     state\<lparr>filters :=
             \<lparr>filter_status =
                (case fp_status payload of None \<Rightarrow> filter_status (filters state) | Some v \<Rightarrow> v),
              filter_severity =
                (case fp_severity payload of None \<Rightarrow> filter_severity (filters state)
                 | Some v \<Rightarrow> v),
              filter_module =
                (case fp_module payload of None \<Rightarrow> filter_module (filters state)
                 | Some v \<Rightarrow> v)\<rparr>\<rparr>"

definition clearError :: "alerts_state \<Rightarrow> alerts_state" where
  "clearError state = state\<lparr>error := None\<rparr>"

definition fetchAlerts_pending :: "alerts_state \<Rightarrow> alerts_state" where
  "fetchAlerts_pending state = state\<lparr>isLoading := True, error := None\<rparr>"

definition fetchAlerts_fulfilled :: "alerts_state \<Rightarrow> alert list \<Rightarrow> alerts_state" where
  "fetchAlerts_fulfilled state payload =
     state\<lparr>isLoading := False, alerts := payload,
           activeAlerts := filter (\<lambda>a. status a = Active) payload\<rparr>"

definition fetchAlerts_rejected :: "alerts_state \<Rightarrow> string \<Rightarrow> alerts_state" where
  "fetchAlerts_rejected state payload = state\<lparr>isLoading := False, error := Some payload\<rparr>"

text \<open>
  \<open>state.alerts.find(a => a.id === alertId)\<close> followed by writes to the record found:
  the first record with that id is changed in place. \<open>now\<close> is the value of
  \<open>new Date().toISOString()\<close> read by the reducer.
\<close>

fun mutate_found :: "('a \<Rightarrow> bool) \<Rightarrow> ('a \<Rightarrow> 'a) \<Rightarrow> 'a list \<Rightarrow> 'a list" where
  "mutate_found P f [] = []"
| "mutate_found P f (x # xs) = (if P x then f x # xs else x # mutate_found P f xs)"

definition acknowledgeAlert_fulfilled :: "alerts_state \<Rightarrow> string \<Rightarrow> string \<Rightarrow> alerts_state" where
  "acknowledgeAlert_fulfilled state alertId now =
     state\<lparr>alerts :=
             mutate_found (\<lambda>a. id_of a = alertId)
               (\<lambda>a. a\<lparr>status := Acknowledged, acknowledged_at := Some now\<rparr>) (alerts state),
           activeAlerts := filter (\<lambda>a. id_of a \<noteq> alertId) (activeAlerts state)\<rparr>"

definition resolveAlert_fulfilled :: "alerts_state \<Rightarrow> string \<Rightarrow> string \<Rightarrow> alerts_state" where
  "resolveAlert_fulfilled state alertId now =
     state\<lparr>alerts :=
             mutate_found (\<lambda>a. id_of a = alertId)
               (\<lambda>a. a\<lparr>status := Resolved, resolved_at := Some now\<rparr>) (alerts state),
           activeAlerts := filter (\<lambda>a. id_of a \<noteq> alertId) (activeAlerts state)\<rparr>"

text \<open>
  The actions the store can dispatch to the slice. A thunk made by \<open>createAsyncThunk\<close>
  dispatches its \<open>pending\<close> action, then \<open>fulfilled\<close> or \<open>rejected\<close>. The slice has a
  case for the three actions of \<open>fetchAlerts\<close> and for the \<open>fulfilled\<close> action of the two
  others; every other action (also those of the other slices) leaves the state as it is.
  The two \<open>fulfilled\<close> actions carry the clock value their reducer reads.
\<close>

datatype action =
    AddAlert alert
  | UpdateAlert alert_patch
  | SetFilters filters_patch
  | ClearError
  | FetchAlertsPending
  | FetchAlertsFulfilled "alert list"
  | FetchAlertsRejected string
  | AcknowledgeAlertPending string
  | AcknowledgeAlertFulfilled string string
  | AcknowledgeAlertRejected string
  | ResolveAlertPending string
  | ResolveAlertFulfilled string string
  | ResolveAlertRejected string
  | OtherAction

fun reducer :: "alerts_state \<Rightarrow> action \<Rightarrow> alerts_state" where
  "reducer state (AddAlert payload) = addAlert state payload"
| "reducer state (UpdateAlert payload) = updateAlert state payload"
| "reducer state (SetFilters payload) = setFilters state payload"
| "reducer state ClearError = clearError state"
| "reducer state FetchAlertsPending = fetchAlerts_pending state"
| "reducer state (FetchAlertsFulfilled payload) = fetchAlerts_fulfilled state payload"
| "reducer state (FetchAlertsRejected payload) = fetchAlerts_rejected state payload"
| "reducer state (AcknowledgeAlertFulfilled alertId now) =
     acknowledgeAlert_fulfilled state alertId now"
| "reducer state (ResolveAlertFulfilled alertId now) = resolveAlert_fulfilled state alertId now"
| "reducer state (AcknowledgeAlertPending alertId) = state"
| "reducer state (AcknowledgeAlertRejected payload) = state"
| "reducer state (ResolveAlertPending alertId) = state"
| "reducer state (ResolveAlertRejected payload) = state"
| "reducer state OtherAction = state"

text \<open>Dispatching a list of actions in order, and the store after each dispatch.\<close>

fun dispatch_all :: "alerts_state \<Rightarrow> action list \<Rightarrow> alerts_state" where
  "dispatch_all state [] = state"
| "dispatch_all state (a # as) = dispatch_all (reducer state a) as"

fun store_trace :: "alerts_state \<Rightarrow> action list \<Rightarrow> alerts_state list" where
  "store_trace state [] = []"
| "store_trace state (a # as) = reducer state a # store_trace (reducer state a) as"

section \<open>The acknowledge thunk (alertsSlice.ts) and its REST call (services/api.ts)\<close>

text \<open>
  \<open>alertsAPI.acknowledgeAlert\<close> issues \<open>PUT /alerts/{alertId}/acknowledge\<close>. The answer of
  the server is the environment's: \<open>RestOk\<close>, or \<open>RestFail m\<close> where \<open>m\<close> is
  \<open>error.response?.data?.message\<close>.
\<close>

datatype http_request = HttpPut string

datatype rest_outcome = RestOk | RestFail "string option"

definition alertsAPI_acknowledgeAlert :: "string \<Rightarrow> http_request" where
  "alertsAPI_acknowledgeAlert alertId = HttpPut (''/alerts/'' @ alertId @ ''/acknowledge'')"

text \<open>
  The thunk made by \<open>createAsyncThunk\<close>: on dispatch it dispatches \<open>pending\<close> and runs the
  payload creator, which calls the API at once, whatever the store holds. When the call
  has completed it dispatches \<open>fulfilled\<close> with the id, or \<open>rejected\<close> with the message
  (\<open>||\<close> takes the default also for an empty message).
\<close>

record thunk_start =
  requests :: "http_request list"
  dispatched_first :: "action list"

definition acknowledgeAlert_start :: "string \<Rightarrow> thunk_start" where
  "acknowledgeAlert_start alertId =
     \<lparr>requests = [alertsAPI_acknowledgeAlert alertId],
      dispatched_first = [AcknowledgeAlertPending alertId]\<rparr>"

definition acknowledgeAlert_settle :: "string \<Rightarrow> rest_outcome \<Rightarrow> string \<Rightarrow> action" where
  "acknowledgeAlert_settle alertId outcome now =
     (case outcome of
        RestOk \<Rightarrow> AcknowledgeAlertFulfilled alertId now
      | RestFail m \<Rightarrow>
          AcknowledgeAlertRejected
            (case m of
               None \<Rightarrow> ''Failed to acknowledge alert''
             | Some t \<Rightarrow> if t = [] then ''Failed to acknowledge alert'' else t))"

definition acknowledgeAlert :: "string \<Rightarrow> rest_outcome \<Rightarrow> string \<Rightarrow> action list" where
  "acknowledgeAlert alertId outcome now =
     dispatched_first (acknowledgeAlert_start alertId)
       @ [acknowledgeAlert_settle alertId outcome now]"

section \<open>The channel hook (hooks/useWebSocket.ts)\<close>

text \<open>
  What a handler does is a list of effects, in order: an action dispatched to the store,
  a message emitted on the socket, a toast. The handlers of the dashboard updates and of
  \<open>emergency_alert\<close> and \<open>system_update\<close> reach neither the alerts slice nor the socket
  and are left out.
\<close>

datatype payload = RoomData string | SubscribeData "string list" "string list"

datatype toast = AlertToast severity string | BulkAcknowledgedToast nat

datatype effect = Dispatch action | Emit string payload | Toast toast

datatype ws_event =
    Connect
  | Disconnect
  | ConnectError
  | NewAlert alert
  | AlertAcknowledged string "string option" "string option"
  | AlertResolved string "string option" "string option"
  | AlertsBulkAcknowledged "string list" "string option" nat

text \<open>
  The payloads the handlers build for \<open>updateAlert\<close>. The keys \<open>acknowledged_at\<close> and
  \<open>acknowledged_by\<close> (or \<open>resolved_at\<close> and \<open>resolved_by\<close>) are always present in the
  payload and hold what the event's data holds, \<open>undefined\<close> included.
\<close>

definition acknowledged_payload :: "string \<Rightarrow> string option \<Rightarrow> string option \<Rightarrow> alert_patch" where
  "acknowledged_payload alert_id at by =
     (patch_of_id alert_id)
       \<lparr>p_status := Some Acknowledged, p_acknowledged_at := Some at,
        p_acknowledged_by := Some by\<rparr>"

definition resolved_payload :: "string \<Rightarrow> string option \<Rightarrow> string option \<Rightarrow> alert_patch" where
  "resolved_payload alert_id at by =
     (patch_of_id alert_id)
       \<lparr>p_status := Some Resolved, p_resolved_at := Some at, p_resolved_by := Some by\<rparr>"

text \<open>
  \<open>alert_ids.forEach\<close>: one \<open>dispatch(updateAlert(...))\<close> for each id, in order; the
  \<open>k\<close>-th iteration reads the clock, \<open>clock k\<close>.
\<close>

fun bulk_dispatches :: "(nat \<Rightarrow> string) \<Rightarrow> nat \<Rightarrow> string list \<Rightarrow> string option \<Rightarrow> effect list" where
  "bulk_dispatches clock k [] by = []"
| "bulk_dispatches clock k (alertId # ids) by =
     Dispatch (UpdateAlert (acknowledged_payload alertId (Some (clock k)) by))
       # bulk_dispatches clock (Suc k) ids by"

fun on_event :: "(nat \<Rightarrow> string) \<Rightarrow> ws_event \<Rightarrow> effect list" where
  "on_event clock Connect =
     [Emit ''join_room'' (RoomData ''alerts''),
      Emit ''join_room'' (RoomData ''dashboard''),
      Emit ''subscribe_alerts''
        (SubscribeData [''high'', ''critical'']
           [''traffic'', ''environment'', ''waste'', ''energy'', ''emergency''])]"
| "on_event clock Disconnect = []"
| "on_event clock ConnectError = []"
| "on_event clock (NewAlert a) =
     Dispatch (AddAlert a)
       # (if severity a = High \<or> severity a = Critical
          then [Toast (AlertToast (severity a) (message a))] else [])"
| "on_event clock (AlertAcknowledged alert_id at by) =
     [Dispatch (UpdateAlert (acknowledged_payload alert_id at by))]"
| "on_event clock (AlertResolved alert_id at by) =
     [Dispatch (UpdateAlert (resolved_payload alert_id at by))]"
| "on_event clock (AlertsBulkAcknowledged alert_ids by count) =
     bulk_dispatches clock 0 alert_ids by @ [Toast (BulkAcknowledgedToast count)]"

fun dispatched :: "effect list \<Rightarrow> action list" where
  "dispatched [] = []"
| "dispatched (Dispatch a # es) = a # dispatched es"
| "dispatched (e # es) = dispatched es"

text \<open>The store after an event's handler has run.\<close>

definition apply_event :: "(nat \<Rightarrow> string) \<Rightarrow> alerts_state \<Rightarrow> ws_event \<Rightarrow> alerts_state" where
  "apply_event clock state ev = dispatch_all state (dispatched (on_event clock ev))"

text \<open>
  The socket of the hook: \<open>NoSocket\<close> is \<open>socketRef.current === null\<close>, \<open>Socket c\<close> a
  socket whose \<open>connected\<close> flag is \<open>c\<close>. The effect makes a socket only for an
  authenticated session with a token; its cleanup disconnects and clears the reference.
  A handler runs only for a socket that exists. \<open>emitEvent\<close> sends on a connected socket
  and does nothing otherwise; nothing records what it sent.
\<close>

datatype socket_ref = NoSocket | Socket bool

datatype hook_input =
    EffectRun bool "string option"
  | Cleanup
  | SocketEvent ws_event
  | EmitEvent string payload

fun hook_step :: "(nat \<Rightarrow> string) \<Rightarrow> socket_ref \<Rightarrow> hook_input \<Rightarrow> socket_ref \<times> effect list" where
  "hook_step clock s (EffectRun isAuthenticated token) =
     (if \<not> isAuthenticated \<or> token = None \<or> token = Some [] then (s, [])
      else (Socket False, []))"
| "hook_step clock s Cleanup = (NoSocket, [])"
| "hook_step clock NoSocket (SocketEvent ev) = (NoSocket, [])"
| "hook_step clock (Socket c) (SocketEvent ev) =
     (Socket (case ev of Connect \<Rightarrow> True | Disconnect \<Rightarrow> False | _ \<Rightarrow> c), on_event clock ev)"
| "hook_step clock s (EmitEvent event data) =
     (s, if s = Socket True then [Emit event data] else [])"

fun hook_run :: "(nat \<Rightarrow> string) \<Rightarrow> socket_ref \<Rightarrow> hook_input list \<Rightarrow> socket_ref \<times> effect list" where
  "hook_run clock s [] = (s, [])"
| "hook_run clock s (i # is) =
     (let (s1, out1) = hook_step clock s i; (s2, out2) = hook_run clock s1 is
      in (s2, out1 @ out2))"

section \<open>Predicates and values used in the statements\<close>

text \<open>
  An action respects the ids of the store when it keeps them unique and does not ask
  \<open>updateAlert\<close> for what its second half cannot do: \<open>addAlert\<close> brings an id that is not
  stored yet, a snapshot repeats no id, and the payload of \<open>updateAlert\<close> carries a status
  when the stored record of its id is active and does not carry \<open>active\<close> when that record
  is not active.
\<close>

fun respects_ids :: "alerts_state \<Rightarrow> action \<Rightarrow> bool" where
  "respects_ids state (AddAlert payload) = (id_of payload \<notin> set (map id_of (alerts state)))"
| "respects_ids state (FetchAlertsFulfilled payload) = distinct (map id_of payload)"
| "respects_ids state (UpdateAlert payload) =
     list_all (\<lambda>a. id_of a = p_id payload \<longrightarrow>
                 (if status a = Active then p_status payload \<noteq> None
                  else p_status payload \<noteq> Some Active)) (alerts state)"
| "respects_ids state _ = True"

fun admissible_run :: "alerts_state \<Rightarrow> action list \<Rightarrow> bool" where
  "admissible_run state [] = True"
| "admissible_run state (a # as) = (respects_ids state a \<and> admissible_run (reducer state a) as)"

definition in_sync :: "alerts_state \<Rightarrow> bool" where
  "in_sync state \<longleftrightarrow>
     distinct (map id_of (alerts state)) \<and>
     activeAlerts state = filter (\<lambda>a. status a = Active) (alerts state)"

text \<open>
  The individual acknowledge patches for a list of ids: one \<open>alert_acknowledged\<close> event
  for each id, handled one after the other, the \<open>k\<close>-th with the clock value \<open>clock k\<close>.
\<close>

fun individual_acknowledges ::
  "(nat \<Rightarrow> string) \<Rightarrow> nat \<Rightarrow> alerts_state \<Rightarrow> string list \<Rightarrow> string option \<Rightarrow> alerts_state" where
  "individual_acknowledges clock k state [] by = state"
| "individual_acknowledges clock k state (alertId # ids) by =
     individual_acknowledges clock (Suc k)
       (apply_event clock state (AlertAcknowledged alertId (Some (clock k)) by)) ids by"

text \<open>Three alerts, a clock and a snapshot for the concrete instances below.\<close>

definition alert_A1 :: alert where
  "alert_A1 =
     \<lparr>id_of = ''A1'', alert_type = ''congestion'', severity = High,
      message = ''Heavy congestion'', module = ''traffic'', status = Active,
      created_at = ''2024-01-01T08:00:00.000Z'', acknowledged_at = None, resolved_at = None,
      location = None, affected_systems = None, recommended_actions = None,
      acknowledged_by = None, resolved_by = None\<rparr>"

definition alert_B2 :: alert where
  "alert_B2 =
     \<lparr>id_of = ''B2'', alert_type = ''bin_full'', severity = Low,
      message = ''Bin full'', module = ''waste'', status = Active,
      created_at = ''2024-01-01T09:00:00.000Z'', acknowledged_at = None, resolved_at = None,
      location = Some ''Sector 4'', affected_systems = None, recommended_actions = None,
      acknowledged_by = None, resolved_by = None\<rparr>"

definition alert_R3 :: alert where
  "alert_R3 =
     \<lparr>id_of = ''R3'', alert_type = ''outage'', severity = Critical,
      message = ''Substation outage'', module = ''energy'', status = Resolved,
      created_at = ''2024-01-01T07:00:00.000Z'', acknowledged_at = None,
      resolved_at = Some ''2024-01-01T07:30:00.000Z'',
      location = None, affected_systems = None, recommended_actions = None,
      acknowledged_by = None, resolved_by = Some ''operator''\<rparr>"

definition clock0 :: "nat \<Rightarrow> string" where
  "clock0 k = ''2024-01-01T10:00:00.000Z''"

definition seeded :: "alert list \<Rightarrow> alerts_state" where
  "seeded snapshot = reducer initialState (FetchAlertsFulfilled snapshot)"

definition example_run :: "action list" where
  "example_run =
     [AddAlert alert_A1, AddAlert alert_B2,
      UpdateAlert (acknowledged_payload ''B2'' (Some ''2024-01-01T09:30:00.000Z'') (Some ''admin'')),
      AddAlert alert_R3,
      SetFilters \<lparr>fp_status = Some ''resolved'', fp_severity = None, fp_module = None\<rparr>,
      AcknowledgeAlertFulfilled ''R3'' (clock0 0),
      UpdateAlert
        ((patch_of_id ''A1'')\<lparr>p_status := Some Active, p_message := Some ''Lane cleared''\<rparr>)]"

definition reconnect_inputs :: "hook_input list" where
  "reconnect_inputs =
     [EffectRun True (Some ''token''), SocketEvent Connect,
      EmitEvent ''subscribe_alerts'' (SubscribeData [''low''] [''waste'']),
      SocketEvent Disconnect]"

lemmas ex_defs = alert_A1_def alert_B2_def alert_R3_def clock0_def initialState_def
  seeded_def example_run_def reconnect_inputs_def
  addAlert_def updateAlert_def setFilters_def fetchAlerts_fulfilled_def
  acknowledgeAlert_fulfilled_def resolveAlert_fulfilled_def apply_event_def
  acknowledged_payload_def resolved_payload_def patch_of_id_def spread_def splice1_def
  acknowledgeAlert_start_def acknowledgeAlert_settle_def acknowledgeAlert_def
  alertsAPI_acknowledgeAlert_def

section \<open>Facts about the array primitives\<close>

lemma findIndex_Some:
  "findIndex P xs = Some i \<Longrightarrow> i < length xs \<and> P (xs ! i) \<and> (\<forall>j<i. \<not> P (xs ! j))"
proof (induction xs arbitrary: i)
  case Nil
  then show ?case by simp
next
  case (Cons x xs)
  show ?case
  proof (cases "P x")
    case True
    with Cons.prems show ?thesis by simp
  next
    case False
    with Cons.prems obtain k where k: "findIndex P xs = Some k" "i = Suc k"
      by auto
    from Cons.IH [OF k(1)] False k(2) show ?thesis
      by (auto simp: nth_Cons split: nat.splits)
  qed
qed

lemma findIndex_None: "findIndex P xs = None \<longleftrightarrow> (\<forall>x\<in>set xs. \<not> P x)"
  by (induction xs) auto

lemma splice1_simps [simp]:
  "splice1 0 (x # xs) = xs" "splice1 (Suc j) (x # xs) = x # splice1 j xs"
  by (simp_all add: splice1_def)

text \<open>Writing at the index \<open>findIndex\<close> returns is changing the first match.\<close>

lemma findIndex_update_mutate:
  "(case findIndex P xs of None \<Rightarrow> xs | Some i \<Rightarrow> xs[i := f (xs ! i)]) = mutate_found P f xs"
  by (induction xs) (auto split: option.splits)

lemma map_id_mutate_found:
  "(\<And>x. P x \<Longrightarrow> g (f x) = g x) \<Longrightarrow> map g (mutate_found P f xs) = map g xs"
  by (induction xs) auto

lemma mutate_found_absent:
  "k \<notin> set (map g xs) \<Longrightarrow> mutate_found (\<lambda>a. g a = k) f xs = xs"
  by (induction xs) auto

lemma filter_absent:
  "k \<notin> set (map g xs) \<Longrightarrow> filter (\<lambda>a. g a \<noteq> k) xs = xs"
  by (induction xs) auto

lemma filter_filter_all: "\<forall>y\<in>set xs. R y \<Longrightarrow> filter R (filter Q xs) = filter Q xs"
  by (induction xs) auto

text \<open>
  How a change of the first match shows in a filtered copy of the array, by what the
  change does to the filter's predicate.
\<close>

lemma filter_mutate_inactive:
  "\<forall>x\<in>set xs. P x \<longrightarrow> \<not> Q x \<and> \<not> Q (f x) \<Longrightarrow> filter Q (mutate_found P f xs) = filter Q xs"
  by (induction xs) auto

lemma filter_mutate_stays:
  "\<forall>x\<in>set xs. P x \<longrightarrow> Q x \<and> Q (f x) \<Longrightarrow>
   filter Q (mutate_found P f xs) = mutate_found P f (filter Q xs)"
  by (induction xs) auto

lemma filter_mutate_leaves:
  "\<forall>x\<in>set xs. P x \<longrightarrow> Q x \<and> \<not> Q (f x) \<Longrightarrow>
   filter Q (mutate_found P f xs) =
     (case findIndex P (filter Q xs) of None \<Rightarrow> filter Q xs | Some j \<Rightarrow> splice1 j (filter Q xs))"
  by (induction xs) (auto split: option.splits)

lemma filter_mutate_distinct:
  "distinct (map g xs) \<Longrightarrow> \<forall>x. \<not> Q (f x) \<Longrightarrow>
   filter Q (mutate_found (\<lambda>a. g a = k) f xs) = filter (\<lambda>a. g a \<noteq> k) (filter Q xs)"
proof (induction xs)
  case Nil
  then show ?case by simp
next
  case (Cons x xs)
  show ?case
  proof (cases "g x = k")
    case True
    from Cons.prems have notin: "g x \<notin> g ` set xs" by simp
    have "\<forall>y\<in>set xs. g y \<noteq> k"
    proof
      fix y assume "y \<in> set xs"
      then have "g y \<in> g ` set xs" by simp
      with notin True show "g y \<noteq> k" by auto
    qed
    then have "filter (\<lambda>a. g a \<noteq> k) (filter Q xs) = filter Q xs"
      by (rule filter_filter_all)
    with True Cons.prems show ?thesis by simp
  next
    case False
    with Cons show ?thesis by simp
  qed
qed

lemma distinct_same_side:
  assumes "distinct (map g xs)"
  shows "(\<forall>x\<in>set xs. g x = k \<longrightarrow> Q x) \<or> (\<forall>x\<in>set xs. g x = k \<longrightarrow> \<not> Q x)"
proof -
  from assms have "inj_on g (set xs)" by (simp add: distinct_map)
  then have "\<And>x y. x \<in> set xs \<Longrightarrow> y \<in> set xs \<Longrightarrow> g x = k \<Longrightarrow> g y = k \<Longrightarrow> x = y"
    by (auto dest: inj_onD)
  then show ?thesis by blast
qed

section \<open>Facts about the reducers\<close>

lemma id_of_spread [simp]: "id_of (spread a p) = p_id p"
  by (simp add: spread_def)

lemma status_spread: "status (spread a p) = (case p_status p of None \<Rightarrow> status a | Some v \<Rightarrow> v)"
  by (simp add: spread_def)

lemma updateAlert_alerts:
  "alerts (updateAlert state payload) =
     mutate_found (\<lambda>a. id_of a = p_id payload) (\<lambda>a. spread a payload) (alerts state)"
  using findIndex_update_mutate [where f = "\<lambda>a. spread a payload"]
  by (simp add: updateAlert_def)

lemma ids_updateAlert: "map id_of (alerts (updateAlert state payload)) = map id_of (alerts state)"
  unfolding updateAlert_alerts by (rule map_id_mutate_found) simp

lemma alerts_addAlert: "alerts (addAlert state a) = a # alerts state"
  by (simp add: addAlert_def)

lemma alerts_add_all:
  "alerts (dispatch_all state (map AddAlert xs)) = rev xs @ alerts state"
  by (induction xs arbitrary: state) (simp_all add: alerts_addAlert)

lemma dispatched_append: "dispatched (es @ fs) = dispatched es @ dispatched fs"
  by (induction es rule: dispatched.induct) simp_all

lemma length_store_trace: "length (store_trace state as) = length as"
  by (induction as arbitrary: state) simp_all

lemma store_trace_nth:
  "k < length as \<Longrightarrow> store_trace state as ! k = dispatch_all state (take (Suc k) as)"
proof (induction as arbitrary: state k)
  case Nil
  then show ?case by simp
next
  case (Cons a as)
  then show ?case by (cases k) simp_all
qed

subsection \<open>The two arrays stay in step under actions that respect the ids\<close>

lemma in_sync_updateAlert:
  assumes sync: "in_sync state" and ok: "respects_ids state (UpdateAlert payload)"
  shows "in_sync (updateAlert state payload)"
proof -
  let ?P = "\<lambda>a. id_of a = p_id payload"
  let ?Q = "\<lambda>a. status a = Active"
  let ?f = "\<lambda>a. spread a payload"
  let ?xs = "alerts state"
  let ?ys = "filter ?Q ?xs"
  from sync have dist: "distinct (map id_of ?xs)"
    and act: "activeAlerts state = ?ys"
    by (simp_all add: in_sync_def)
  from ok have resp: "\<forall>a\<in>set ?xs. ?P a \<longrightarrow>
      (if status a = Active then p_status payload \<noteq> None else p_status payload \<noteq> Some Active)"
    by (simp add: list_all_iff)
  have ids: "map id_of (mutate_found ?P ?f ?xs) = map id_of ?xs"
    by (rule map_id_mutate_found) simp
  have act': "activeAlerts (updateAlert state payload) =
      (case findIndex ?P ?ys of
         None \<Rightarrow> ?ys
       | Some j \<Rightarrow> if p_status payload = Some Active then ?ys[j := ?f (?ys ! j)]
                   else splice1 j ?ys)"
    by (simp add: updateAlert_def act cong: option.case_cong if_cong)
  have "filter ?Q (mutate_found ?P ?f ?xs) = activeAlerts (updateAlert state payload)"
  proof (cases "p_status payload = Some Active")
    case True
    with resp have "\<forall>x\<in>set ?xs. ?P x \<longrightarrow> ?Q x \<and> ?Q (?f x)"
      by (auto simp: status_spread split: if_splits)
    then have "filter ?Q (mutate_found ?P ?f ?xs) = mutate_found ?P ?f ?ys"
      by (rule filter_mutate_stays)
    also have "\<dots> = (case findIndex ?P ?ys of None \<Rightarrow> ?ys | Some j \<Rightarrow> ?ys[j := ?f (?ys ! j)])"
      using findIndex_update_mutate [where f = ?f and P = ?P and xs = ?ys] by simp
    finally show ?thesis using True by (simp add: act' split: option.splits)
  next
    case False
    from distinct_same_side [OF dist, of "p_id payload" ?Q]
    show ?thesis
    proof
      assume all_active: "\<forall>x\<in>set ?xs. ?P x \<longrightarrow> ?Q x"
      with resp False have "\<forall>x\<in>set ?xs. ?P x \<longrightarrow> ?Q x \<and> \<not> ?Q (?f x)"
        by (auto simp: status_spread split: option.splits)
      then have "filter ?Q (mutate_found ?P ?f ?xs) =
          (case findIndex ?P ?ys of None \<Rightarrow> ?ys | Some j \<Rightarrow> splice1 j ?ys)"
        by (rule filter_mutate_leaves)
      with False show ?thesis by (simp add: act' split: option.splits)
    next
      assume none_active: "\<forall>x\<in>set ?xs. ?P x \<longrightarrow> \<not> ?Q x"
      with resp False have "\<forall>x\<in>set ?xs. ?P x \<longrightarrow> \<not> ?Q x \<and> \<not> ?Q (?f x)"
        by (auto simp: status_spread split: option.splits)
      then have "filter ?Q (mutate_found ?P ?f ?xs) = ?ys"
        by (rule filter_mutate_inactive)
      moreover from none_active have "findIndex ?P ?ys = None"
        by (auto simp: findIndex_None)
      ultimately show ?thesis by (simp add: act')
    qed
  qed
  with dist ids show ?thesis
    by (simp add: in_sync_def updateAlert_alerts)
qed

lemma in_sync_addAlert:
  "in_sync state \<Longrightarrow> respects_ids state (AddAlert payload) \<Longrightarrow> in_sync (addAlert state payload)"
  by (simp add: in_sync_def addAlert_def)

lemma in_sync_fetchAlerts_fulfilled:
  "respects_ids state (FetchAlertsFulfilled payload) \<Longrightarrow>
   in_sync (fetchAlerts_fulfilled state payload)"
  by (simp add: in_sync_def fetchAlerts_fulfilled_def)

lemma in_sync_acknowledgeAlert_fulfilled:
  assumes "in_sync state"
  shows "in_sync (acknowledgeAlert_fulfilled state alertId now)"
proof -
  let ?f = "\<lambda>a. a\<lparr>status := Acknowledged, acknowledged_at := Some now\<rparr>"
  from assms have dist: "distinct (map id_of (alerts state))"
    and act: "activeAlerts state = filter (\<lambda>a. status a = Active) (alerts state)"
    by (simp_all add: in_sync_def)
  have "map id_of (mutate_found (\<lambda>a. id_of a = alertId) ?f (alerts state)) =
      map id_of (alerts state)"
    by (rule map_id_mutate_found) simp
  moreover have "filter (\<lambda>a. status a = Active)
        (mutate_found (\<lambda>a. id_of a = alertId) ?f (alerts state)) =
      filter (\<lambda>a. id_of a \<noteq> alertId) (filter (\<lambda>a. status a = Active) (alerts state))"
    by (rule filter_mutate_distinct [OF dist]) simp
  ultimately show ?thesis
    using dist act by (simp add: in_sync_def acknowledgeAlert_fulfilled_def)
qed

lemma in_sync_resolveAlert_fulfilled:
  assumes "in_sync state"
  shows "in_sync (resolveAlert_fulfilled state alertId now)"
proof -
  let ?f = "\<lambda>a. a\<lparr>status := Resolved, resolved_at := Some now\<rparr>"
  from assms have dist: "distinct (map id_of (alerts state))"
    and act: "activeAlerts state = filter (\<lambda>a. status a = Active) (alerts state)"
    by (simp_all add: in_sync_def)
  have "map id_of (mutate_found (\<lambda>a. id_of a = alertId) ?f (alerts state)) =
      map id_of (alerts state)"
    by (rule map_id_mutate_found) simp
  moreover have "filter (\<lambda>a. status a = Active)
        (mutate_found (\<lambda>a. id_of a = alertId) ?f (alerts state)) =
      filter (\<lambda>a. id_of a \<noteq> alertId) (filter (\<lambda>a. status a = Active) (alerts state))"
    by (rule filter_mutate_distinct [OF dist]) simp
  ultimately show ?thesis
    using dist act by (simp add: in_sync_def resolveAlert_fulfilled_def)
qed

lemma in_sync_reducer:
  "in_sync state \<Longrightarrow> respects_ids state a \<Longrightarrow> in_sync (reducer state a)"
proof (cases a)
  case (AddAlert x)
  then show "in_sync state \<Longrightarrow> respects_ids state a \<Longrightarrow> ?thesis"
    by (simp add: in_sync_addAlert)
next
  case (UpdateAlert x)
  then show "in_sync state \<Longrightarrow> respects_ids state a \<Longrightarrow> ?thesis"
    using in_sync_updateAlert by simp
next
  case (FetchAlertsFulfilled x)
  then show "in_sync state \<Longrightarrow> respects_ids state a \<Longrightarrow> ?thesis"
    by (simp add: in_sync_fetchAlerts_fulfilled)
next
  case (AcknowledgeAlertFulfilled x y)
  then show "in_sync state \<Longrightarrow> respects_ids state a \<Longrightarrow> ?thesis"
    by (simp add: in_sync_acknowledgeAlert_fulfilled)
next
  case (ResolveAlertFulfilled x y)
  then show "in_sync state \<Longrightarrow> respects_ids state a \<Longrightarrow> ?thesis"
    by (simp add: in_sync_resolveAlert_fulfilled)
qed (simp_all add: in_sync_def setFilters_def clearError_def fetchAlerts_pending_def
      fetchAlerts_rejected_def)

lemma in_sync_run:
  "in_sync state \<Longrightarrow> admissible_run state as \<Longrightarrow> in_sync (dispatch_all state as)"
  by (induction as arbitrary: state) (simp_all add: in_sync_reducer)

lemma in_sync_initialState: "in_sync initialState"
  by (simp add: in_sync_def initialState_def)

subsection \<open>The bulk handler, dispatch by dispatch\<close>

lemma bulk_is_individual:
  "dispatch_all state (dispatched (bulk_dispatches clock k ids by))
     = individual_acknowledges clock k state ids by"
  by (induction ids arbitrary: k state) (simp_all add: apply_event_def)

lemma length_dispatched_bulk: "length (dispatched (bulk_dispatches clock k ids by)) = length ids"
  by (induction ids arbitrary: k) simp_all

lemma take_dispatched_bulk:
  "take n (dispatched (bulk_dispatches clock k ids by))
     = dispatched (bulk_dispatches clock k (take n ids) by)"
proof (induction ids arbitrary: k n)
  case Nil
  then show ?case by simp
next
  case (Cons i ids)
  then show ?case by (cases n) simp_all
qed

subsection \<open>Runs of the hook\<close>

lemma hook_run_append:
  "hook_run clock s (is @ js) =
     (fst (hook_run clock (fst (hook_run clock s is)) js),
      snd (hook_run clock s is) @ snd (hook_run clock (fst (hook_run clock s is)) js))"
  by (induction "is" arbitrary: s) (simp_all add: split_beta Let_def)

section \<open>The claims\<close>

text \<open>
  C1, as amended. Along every sequence of actions dispatched from the initial state in
  which each action respects the ids of the store (\<open>addAlert\<close> brings a new id, a
  snapshot repeats no id, the payload of \<open>updateAlert\<close> carries a status when the stored
  record of its id is active and does not carry \<open>active\<close> when it is not),
  \<open>state.activeAlerts\<close> is the array of the records of \<open>state.alerts\<close> whose status is
  \<open>active\<close>, in the same order.
\<close>

theorem C1_active_view_in_step:
  "admissible_run initialState as \<Longrightarrow>
   activeAlerts (dispatch_all initialState as) =
     filter (\<lambda>a. status a = Active) (alerts (dispatch_all initialState as))"
  using in_sync_run [OF in_sync_initialState] by (simp add: in_sync_def)

text \<open>An instance: seven actions that respect the ids; one alert is active at the end.\<close>

theorem C1_active_view_in_step_witness:
  "admissible_run initialState example_run \<and>
   activeAlerts (dispatch_all initialState example_run) =
     filter (\<lambda>a. status a = Active) (alerts (dispatch_all initialState example_run)) \<and>
   map id_of (activeAlerts (dispatch_all initialState example_run)) = [''A1'']"
proof -
  have adm: "admissible_run initialState example_run"
    by (simp add: ex_defs)
  have ids: "map id_of (activeAlerts (dispatch_all initialState example_run)) = [''A1'']"
    by (simp add: ex_defs)
  from C1_active_view_in_step [OF adm] adm ids show ?thesis by simp
qed

text \<open>
  C1 as stated fails when an id is stored twice: the same \<open>new_alert\<close> delivered twice,
  then a successful acknowledge. The active view is empty, while the second record of
  \<open>state.alerts\<close> is still active.
\<close>

theorem C1_drift_counterexample:
  "activeAlerts (dispatch_all initialState
      [AddAlert alert_A1, AddAlert alert_A1, AcknowledgeAlertFulfilled ''A1'' (clock0 0)]) = [] \<and>
   map status (alerts (dispatch_all initialState
      [AddAlert alert_A1, AddAlert alert_A1, AcknowledgeAlertFulfilled ''A1'' (clock0 0)]))
     = [Acknowledged, Active]"
  by (simp add: ex_defs)

text \<open>
  The two conditions on the payload of \<open>updateAlert\<close> are needed as well. A payload
  without a status takes an active alert out of the active view and leaves it active in
  \<open>state.alerts\<close>; a payload with the status \<open>active\<close> makes a resolved alert active
  in \<open>state.alerts\<close> and does not put it into the active view.
\<close>

lemma updateAlert_without_status_drifts:
  "activeAlerts (updateAlert (seeded [alert_A1])
      ((patch_of_id ''A1'')\<lparr>p_message := Some ''Lane cleared''\<rparr>)) = [] \<and>
   map status (alerts (updateAlert (seeded [alert_A1])
      ((patch_of_id ''A1'')\<lparr>p_message := Some ''Lane cleared''\<rparr>))) = [Active]"
  by (simp add: ex_defs)

lemma updateAlert_reactivation_drifts:
  "activeAlerts (updateAlert (seeded [alert_R3])
      ((patch_of_id ''R3'')\<lparr>p_status := Some Active\<rparr>)) = [] \<and>
   map status (alerts (updateAlert (seeded [alert_R3])
      ((patch_of_id ''R3'')\<lparr>p_status := Some Active\<rparr>))) = [Active]"
  by (simp add: ex_defs)

text \<open>
  C2, as amended. The store has no guard for resolved alerts: when the first record of
  \<open>state.alerts\<close> with the id of an \<open>alert_acknowledged\<close> event is resolved, handling the
  event sets its status to \<open>acknowledged\<close> and its \<open>acknowledged_at\<close> to the event's; only
  its \<open>resolved_at\<close> stays as it was.
\<close>

theorem C2_acknowledged_overwrites_resolved:
  assumes "findIndex (\<lambda>a. id_of a = alert_id) (alerts state) = Some i"
    and "status (alerts state ! i) = Resolved"
  shows "status (alerts (apply_event clock state (AlertAcknowledged alert_id at by)) ! i)
           = Acknowledged \<and>
         acknowledged_at (alerts (apply_event clock state (AlertAcknowledged alert_id at by)) ! i)
           = at \<and>
         resolved_at (alerts (apply_event clock state (AlertAcknowledged alert_id at by)) ! i)
           = resolved_at (alerts state ! i)"
proof -
  from findIndex_Some [OF assms(1)] have len: "i < length (alerts state)" by simp
  have "alerts (apply_event clock state (AlertAcknowledged alert_id at by)) =
      (alerts state)[i := spread (alerts state ! i) (acknowledged_payload alert_id at by)]"
    using assms(1)
    by (simp add: apply_event_def updateAlert_def acknowledged_payload_def patch_of_id_def)
  with len show ?thesis
    by (simp add: spread_def acknowledged_payload_def patch_of_id_def)
qed

text \<open>An instance: the snapshot holds the resolved alert R3 at index 1.\<close>

theorem C2_acknowledged_overwrites_resolved_witness:
  "findIndex (\<lambda>a. id_of a = ''R3'') (alerts (seeded [alert_A1, alert_R3])) = Some 1 \<and>
   status (alerts (seeded [alert_A1, alert_R3]) ! 1) = Resolved \<and>
   status (alerts (apply_event clock0 (seeded [alert_A1, alert_R3])
      (AlertAcknowledged ''R3'' (Some ''2024-01-01T11:00:00.000Z'') (Some ''admin''))) ! 1)
     = Acknowledged \<and>
   resolved_at (alerts (apply_event clock0 (seeded [alert_A1, alert_R3])
      (AlertAcknowledged ''R3'' (Some ''2024-01-01T11:00:00.000Z'') (Some ''admin''))) ! 1)
     = Some ''2024-01-01T07:30:00.000Z''"
proof -
  have h1: "findIndex (\<lambda>a. id_of a = ''R3'') (alerts (seeded [alert_A1, alert_R3])) = Some 1"
    by (simp add: ex_defs)
  have h2: "status (alerts (seeded [alert_A1, alert_R3]) ! 1) = Resolved"
    by (simp add: ex_defs)
  have h3: "resolved_at (alerts (seeded [alert_A1, alert_R3]) ! 1)
      = Some ''2024-01-01T07:30:00.000Z''"
    by (simp add: ex_defs)
  from C2_acknowledged_overwrites_resolved
         [OF h1 h2, of clock0 "Some ''2024-01-01T11:00:00.000Z''" "Some ''admin''"] h1 h2 h3
  show ?thesis by simp
qed

text \<open>
  C2 as stated fails: a snapshot brings the resolved alert R3, then \<open>alert_acknowledged\<close>
  arrives for R3, and the stored status is \<open>acknowledged\<close>.
\<close>

theorem C2_resolved_downgraded_counterexample:
  "map status (alerts (apply_event clock0 (seeded [alert_R3])
      (AlertAcknowledged ''R3'' (Some ''2024-01-01T11:00:00.000Z'') (Some ''admin''))))
     = [Acknowledged]"
  by (simp add: ex_defs)

text \<open>
  C3, as amended. Handling \<open>new_alert\<close> is a prepend and never a replace: after the same
  event was handled twice, \<open>state.alerts\<close> starts with two copies of the record and is two
  longer than before, so the store differs from the one after a single delivery.
\<close>

theorem C3_new_alert_twice_inserts_twice:
  "alerts (apply_event clock (apply_event clock state (NewAlert a)) (NewAlert a))
     = a # a # alerts state \<and>
   length (alerts (apply_event clock (apply_event clock state (NewAlert a)) (NewAlert a)))
     = length (alerts state) + 2 \<and>
   apply_event clock (apply_event clock state (NewAlert a)) (NewAlert a)
     \<noteq> apply_event clock state (NewAlert a)"
proof -
  have twice: "alerts (apply_event clock (apply_event clock state (NewAlert a)) (NewAlert a))
      = a # a # alerts state"
    by (simp add: apply_event_def addAlert_def)
  have once: "alerts (apply_event clock state (NewAlert a)) = a # alerts state"
    by (simp add: apply_event_def addAlert_def)
  have "length (alerts (apply_event clock (apply_event clock state (NewAlert a)) (NewAlert a)))
      \<noteq> length (alerts (apply_event clock state (NewAlert a)))"
    unfolding twice once by simp
  then have "apply_event clock (apply_event clock state (NewAlert a)) (NewAlert a)
      \<noteq> apply_event clock state (NewAlert a)"
    by metis
  with twice show ?thesis by simp
qed

text \<open>C3 as stated fails on the empty store: two deliveries of A1 are not one.\<close>

theorem C3_new_alert_twice_counterexample:
  "apply_event clock0 (apply_event clock0 initialState (NewAlert alert_A1)) (NewAlert alert_A1)
     \<noteq> apply_event clock0 initialState (NewAlert alert_A1)"
  by (simp add: ex_defs)

text \<open>
  C4, as amended. Dispatching \<open>acknowledge(id)\<close> applies no optimistic patch: the
  \<open>pending\<close> action leaves the store as it is. When the REST call fails the store is the
  one before the call, since nothing was changed. The store changes only when the call
  succeeds, by the \<open>fulfilled\<close> reducer: the first record of \<open>state.alerts\<close> with the id
  gets the status \<open>acknowledged\<close> and the clock value as \<open>acknowledged_at\<close>, every other
  record stays as it was (all of them when no record has the id), every record with the
  id leaves \<open>state.activeAlerts\<close>, and the rest of the state is untouched.
\<close>

theorem C4_acknowledge_changes_store_on_success_only:
  "dispatch_all state (dispatched_first (acknowledgeAlert_start alertId)) = state \<and>
   dispatch_all state (acknowledgeAlert alertId (RestFail m) now) = state \<and>
   dispatch_all state (acknowledgeAlert alertId RestOk now)
     = acknowledgeAlert_fulfilled state alertId now \<and>
   (\<forall>i. findIndex (\<lambda>a. id_of a = alertId) (alerts state) = Some i \<longrightarrow>
      alerts (dispatch_all state (acknowledgeAlert alertId RestOk now))
        = (alerts state)
            [i := (alerts state ! i)\<lparr>status := Acknowledged, acknowledged_at := Some now\<rparr>]) \<and>
   (findIndex (\<lambda>a. id_of a = alertId) (alerts state) = None \<longrightarrow>
      alerts (dispatch_all state (acknowledgeAlert alertId RestOk now)) = alerts state) \<and>
   activeAlerts (dispatch_all state (acknowledgeAlert alertId RestOk now))
     = filter (\<lambda>a. id_of a \<noteq> alertId) (activeAlerts state) \<and>
   alertId \<notin> set (map id_of (activeAlerts (dispatch_all state
      (acknowledgeAlert alertId RestOk now)))) \<and>
   isLoading (dispatch_all state (acknowledgeAlert alertId RestOk now)) = isLoading state \<and>
   error (dispatch_all state (acknowledgeAlert alertId RestOk now)) = error state \<and>
   filters (dispatch_all state (acknowledgeAlert alertId RestOk now)) = filters state"
proof -
  let ?f = "\<lambda>a. a\<lparr>status := Acknowledged, acknowledged_at := Some now\<rparr>"
  let ?P = "\<lambda>a. id_of a = alertId"
  have run: "dispatch_all state (acknowledgeAlert alertId RestOk now)
      = acknowledgeAlert_fulfilled state alertId now"
    by (simp add: acknowledgeAlert_def acknowledgeAlert_start_def acknowledgeAlert_settle_def)
  have fail: "dispatch_all state (acknowledgeAlert alertId (RestFail m) now) = state"
    by (simp add: acknowledgeAlert_def acknowledgeAlert_start_def acknowledgeAlert_settle_def)
  have pend: "dispatch_all state (dispatched_first (acknowledgeAlert_start alertId)) = state"
    by (simp add: acknowledgeAlert_start_def)
  have al: "alerts (acknowledgeAlert_fulfilled state alertId now)
      = mutate_found ?P ?f (alerts state)"
    by (simp add: acknowledgeAlert_fulfilled_def)
  have mf: "mutate_found ?P ?f (alerts state) =
      (case findIndex ?P (alerts state) of None \<Rightarrow> alerts state
       | Some i \<Rightarrow> (alerts state)[i := ?f (alerts state ! i)])"
    using findIndex_update_mutate [where P = ?P and f = ?f and xs = "alerts state"] by simp
  have found: "\<forall>i. findIndex ?P (alerts state) = Some i \<longrightarrow>
      alerts (acknowledgeAlert_fulfilled state alertId now)
        = (alerts state)[i := ?f (alerts state ! i)]"
    unfolding al mf by simp
  have absent: "findIndex ?P (alerts state) = None \<longrightarrow>
      alerts (acknowledgeAlert_fulfilled state alertId now) = alerts state"
    unfolding al mf by simp
  have act: "activeAlerts (acknowledgeAlert_fulfilled state alertId now)
      = filter (\<lambda>a. id_of a \<noteq> alertId) (activeAlerts state)"
    by (simp add: acknowledgeAlert_fulfilled_def)
  have gone: "alertId \<notin> set (map id_of (activeAlerts (acknowledgeAlert_fulfilled state alertId now)))"
    unfolding act by auto
  have rest: "isLoading (acknowledgeAlert_fulfilled state alertId now) = isLoading state"
    "error (acknowledgeAlert_fulfilled state alertId now) = error state"
    "filters (acknowledgeAlert_fulfilled state alertId now) = filters state"
    by (simp_all add: acknowledgeAlert_fulfilled_def)
  from pend fail found absent act gone rest show ?thesis
    unfolding run by blast
qed

text \<open>
  An instance: acknowledging A1, stored at index 1, and the id X9 that is not stored.
\<close>

theorem C4_acknowledge_changes_store_on_success_only_witness:
  "findIndex (\<lambda>a. id_of a = ''A1'') (alerts (seeded [alert_B2, alert_A1])) = Some 1 \<and>
   alerts (dispatch_all (seeded [alert_B2, alert_A1]) (acknowledgeAlert ''A1'' RestOk (clock0 0)))
     = [alert_B2, alert_A1\<lparr>status := Acknowledged, acknowledged_at := Some (clock0 0)\<rparr>] \<and>
   activeAlerts (dispatch_all (seeded [alert_B2, alert_A1])
      (acknowledgeAlert ''A1'' RestOk (clock0 0))) = [alert_B2] \<and>
   findIndex (\<lambda>a. id_of a = ''X9'') (alerts (seeded [alert_B2, alert_A1])) = None \<and>
   alerts (dispatch_all (seeded [alert_B2, alert_A1]) (acknowledgeAlert ''X9'' RestOk (clock0 0)))
     = [alert_B2, alert_A1]"
proof -
  have h1: "findIndex (\<lambda>a. id_of a = ''A1'') (alerts (seeded [alert_B2, alert_A1])) = Some 1"
    by (simp add: ex_defs)
  have h2: "findIndex (\<lambda>a. id_of a = ''X9'') (alerts (seeded [alert_B2, alert_A1])) = None"
    by (simp add: ex_defs)
  have s: "alerts (seeded [alert_B2, alert_A1]) = [alert_B2, alert_A1]"
    "activeAlerts (seeded [alert_B2, alert_A1]) = [alert_B2, alert_A1]"
    by (simp_all add: seeded_def fetchAlerts_fulfilled_def alert_A1_def alert_B2_def)
  have ids: "id_of alert_B2 \<noteq> ''A1''" "id_of alert_A1 = ''A1''"
    by (simp_all add: alert_A1_def alert_B2_def)
  from C4_acknowledge_changes_store_on_success_only [of "seeded [alert_B2, alert_A1]" "''A1''" None "clock0 0"] h1
  have a: "alerts (dispatch_all (seeded [alert_B2, alert_A1])
        (acknowledgeAlert ''A1'' RestOk (clock0 0)))
      = (alerts (seeded [alert_B2, alert_A1]))
          [1 := (alerts (seeded [alert_B2, alert_A1]) ! 1)
             \<lparr>status := Acknowledged, acknowledged_at := Some (clock0 0)\<rparr>]"
    and b: "activeAlerts (dispatch_all (seeded [alert_B2, alert_A1])
        (acknowledgeAlert ''A1'' RestOk (clock0 0)))
      = filter (\<lambda>a. id_of a \<noteq> ''A1'') (activeAlerts (seeded [alert_B2, alert_A1]))"
    by blast+
  from C4_acknowledge_changes_store_on_success_only [of "seeded [alert_B2, alert_A1]" "''X9''" None "clock0 0"] h2
  have c: "alerts (dispatch_all (seeded [alert_B2, alert_A1])
        (acknowledgeAlert ''X9'' RestOk (clock0 0))) = alerts (seeded [alert_B2, alert_A1])"
    by blast
  from a b c h1 h2 show ?thesis
    unfolding s by (simp add: ids)
qed

text \<open>
  C4 as stated fails: after \<open>acknowledge("A1")\<close> was dispatched and before its call has
  completed, the stored A1 is still \<open>active\<close>.
\<close>

theorem C4_no_optimistic_patch_counterexample:
  "map status (alerts (dispatch_all (seeded [alert_A1])
      (dispatched_first (acknowledgeAlert_start ''A1'')))) = [Active]"
  by (simp add: ex_defs)

text \<open>
  C5, as amended. The handler of \<open>alerts_bulk_acknowledged\<close> leaves the store that the
  individual acknowledge patches for its ids leave, each stamped with the client's clock.
  It is not one store transaction: it dispatches once for each id, and the store after
  the dispatch number \<open>k\<close> holds the transitions of the first \<open>k + 1\<close> ids only.
\<close>

theorem C5_bulk_is_one_dispatch_per_id:
  "apply_event clock state (AlertsBulkAcknowledged ids by count)
     = individual_acknowledges clock 0 state ids by \<and>
   length (store_trace state (dispatched (on_event clock (AlertsBulkAcknowledged ids by count))))
     = length ids \<and>
   (\<forall>k<length ids.
      store_trace state (dispatched (on_event clock (AlertsBulkAcknowledged ids by count))) ! k
        = individual_acknowledges clock 0 state (take (Suc k) ids) by)"
proof -
  have acts: "dispatched (on_event clock (AlertsBulkAcknowledged ids by count))
      = dispatched (bulk_dispatches clock 0 ids by)"
    by (simp add: dispatched_append)
  have final: "apply_event clock state (AlertsBulkAcknowledged ids by count)
      = individual_acknowledges clock 0 state ids by"
    unfolding apply_event_def acts by (rule bulk_is_individual)
  have len: "length (store_trace state
      (dispatched (on_event clock (AlertsBulkAcknowledged ids by count)))) = length ids"
    unfolding acts by (simp add: length_store_trace length_dispatched_bulk)
  have steps: "\<forall>k<length ids.
      store_trace state (dispatched (on_event clock (AlertsBulkAcknowledged ids by count))) ! k
        = individual_acknowledges clock 0 state (take (Suc k) ids) by"
    unfolding acts
    by (simp add: store_trace_nth length_dispatched_bulk take_dispatched_bulk bulk_is_individual)
  from final len steps show ?thesis by blast
qed

text \<open>An instance: two ids; the store after the first dispatch has the first patch only.\<close>

theorem C5_bulk_is_one_dispatch_per_id_witness:
  "(0::nat) < length [''A1'', ''B2''] \<and>
   store_trace (seeded [alert_A1, alert_B2])
     (dispatched (on_event clock0 (AlertsBulkAcknowledged [''A1'', ''B2''] (Some ''admin'') 2))) ! 0
     = individual_acknowledges clock0 0 (seeded [alert_A1, alert_B2])
         (take (Suc 0) [''A1'', ''B2'']) (Some ''admin'')"
proof -
  have h: "(0::nat) < length [''A1'', ''B2'']" by simp
  from C5_bulk_is_one_dispatch_per_id
         [of clock0 "seeded [alert_A1, alert_B2]" "[''A1'', ''B2'']" "Some ''admin''" 2] h
  show ?thesis by blast
qed

text \<open>
  C5 as stated fails: with A1 and B2 active, the store after the first dispatch of the
  bulk handler has A1 acknowledged and B2 active, and the active view holds B2 alone.
\<close>

theorem C5_bulk_partial_counterexample:
  "map status (alerts (store_trace (seeded [alert_A1, alert_B2])
      (dispatched (on_event clock0 (AlertsBulkAcknowledged [''A1'', ''B2''] (Some ''admin'') 2)))
      ! 0)) = [Acknowledged, Active] \<and>
   map id_of (activeAlerts (store_trace (seeded [alert_A1, alert_B2])
      (dispatched (on_event clock0 (AlertsBulkAcknowledged [''A1'', ''B2''] (Some ''admin'') 2)))
      ! 0)) = [''B2'']"
  by (simp add: ex_defs)

text \<open>
  C6, as amended. \<open>acknowledge(id)\<close> is never rejected locally: for every id it issues
  \<open>PUT /alerts/{id}/acknowledge\<close>. For an id that is in neither array of the store, the
  store is the same after the thunk's actions, whatever the server answers.
\<close>

theorem C6_acknowledge_unknown_id_calls_server:
  "requests (acknowledgeAlert_start alertId)
     = [HttpPut (''/alerts/'' @ alertId @ ''/acknowledge'')] \<and>
   (alertId \<notin> set (map id_of (alerts state)) \<and>
    alertId \<notin> set (map id_of (activeAlerts state)) \<longrightarrow>
      dispatch_all state (acknowledgeAlert alertId outcome now) = state)"
  by (cases outcome)
    (simp_all add: acknowledgeAlert_def acknowledgeAlert_start_def acknowledgeAlert_settle_def
      alertsAPI_acknowledgeAlert_def acknowledgeAlert_fulfilled_def
      mutate_found_absent filter_absent)

text \<open>An instance: X9 and the snapshot of A1, with a call that succeeds.\<close>

theorem C6_acknowledge_unknown_id_calls_server_witness:
  "''X9'' \<notin> set (map id_of (alerts (seeded [alert_A1]))) \<and>
   ''X9'' \<notin> set (map id_of (activeAlerts (seeded [alert_A1]))) \<and>
   dispatch_all (seeded [alert_A1]) (acknowledgeAlert ''X9'' RestOk (clock0 0))
     = seeded [alert_A1]"
proof -
  have h: "''X9'' \<notin> set (map id_of (alerts (seeded [alert_A1]))) \<and>
      ''X9'' \<notin> set (map id_of (activeAlerts (seeded [alert_A1])))"
    by (simp add: ex_defs)
  with C6_acknowledge_unknown_id_calls_server
         [of "''X9''" "seeded [alert_A1]" RestOk "clock0 0"]
  show ?thesis by blast
qed

text \<open>C6 as stated fails: X9 is not in the store and the request is issued.\<close>

theorem C6_unknown_id_request_counterexample:
  "''X9'' \<notin> set (map id_of (alerts initialState)) \<and>
   requests (acknowledgeAlert_start ''X9'') = [HttpPut ''/alerts/X9/acknowledge'']"
  by (simp add: ex_defs)

text \<open>
  C7, as amended. A fulfilled snapshot fetch replaces \<open>state.alerts\<close> by the snapshot, so
  an id stays exactly when the snapshot has it. Every other action keeps every stored id.
\<close>

theorem C7_only_snapshot_removes_ids:
  "alerts (reducer state (FetchAlertsFulfilled payload)) = payload \<and>
   ((\<forall>snapshot. a \<noteq> FetchAlertsFulfilled snapshot) \<longrightarrow>
      set (map id_of (alerts state)) \<subseteq> set (map id_of (alerts (reducer state a))))"
proof -
  have ack: "\<And>i t. map id_of (alerts (acknowledgeAlert_fulfilled state i t))
      = map id_of (alerts state)"
    unfolding acknowledgeAlert_fulfilled_def by (simp add: map_id_mutate_found)
  have res: "\<And>i t. map id_of (alerts (resolveAlert_fulfilled state i t))
      = map id_of (alerts state)"
    unfolding resolveAlert_fulfilled_def by (simp add: map_id_mutate_found)
  have "(\<forall>snapshot. a \<noteq> FetchAlertsFulfilled snapshot) \<longrightarrow>
      set (map id_of (alerts state)) \<subseteq> set (map id_of (alerts (reducer state a)))"
    by (cases a)
      (auto simp: ids_updateAlert ack res addAlert_def setFilters_def clearError_def
        fetchAlerts_pending_def fetchAlerts_rejected_def simp del: set_map)
  then show ?thesis by (simp add: fetchAlerts_fulfilled_def)
qed

text \<open>An instance: resolving A1 keeps both stored ids.\<close>

theorem C7_only_snapshot_removes_ids_witness:
  "(\<forall>snapshot. ResolveAlertFulfilled ''A1'' (clock0 0) \<noteq> FetchAlertsFulfilled snapshot) \<and>
   set (map id_of (alerts (seeded [alert_A1, alert_R3])))
     \<subseteq> set (map id_of (alerts (reducer (seeded [alert_A1, alert_R3])
          (ResolveAlertFulfilled ''A1'' (clock0 0)))))"
  using C7_only_snapshot_removes_ids
          [of "seeded [alert_A1, alert_R3]" "[]" "ResolveAlertFulfilled ''A1'' (clock0 0)"]
  by simp

text \<open>
  C7 as stated fails: the store holds the resolved alert R3, a refetch returns A1 only,
  and R3 is gone.
\<close>

theorem C7_snapshot_deletes_counterexample:
  "map id_of (alerts (seeded [alert_R3])) = [''R3''] \<and>
   alerts (reducer (seeded [alert_R3]) (FetchAlertsFulfilled [alert_A1])) = [alert_A1]"
  by (simp add: ex_defs)

text \<open>
  C8, as amended. In every run of the hook, a \<open>connect\<close> event on an existing socket is
  followed by the emission of \<open>join_room\<close> twice and of \<open>subscribe_alerts\<close>, always with
  the filter written in the handler (levels high and critical, the five modules); a
  filter sent through \<open>emitEvent\<close> is not kept and is not sent again.
\<close>

theorem C8_connect_resubscribes_fixed_filter:
  assumes "fst (hook_run clock s inputs) \<noteq> NoSocket"
  shows "snd (hook_run clock s (inputs @ [SocketEvent Connect])) =
     snd (hook_run clock s inputs) @
       [Emit ''join_room'' (RoomData ''alerts''),
        Emit ''join_room'' (RoomData ''dashboard''),
        Emit ''subscribe_alerts''
          (SubscribeData [''high'', ''critical'']
             [''traffic'', ''environment'', ''waste'', ''energy'', ''emergency''])] \<and>
     fst (hook_run clock s (inputs @ [SocketEvent Connect])) = Socket True"
proof -
  from assms obtain c where "fst (hook_run clock s inputs) = Socket c"
    by (cases "fst (hook_run clock s inputs)") simp_all
  then show ?thesis by (simp add: hook_run_append)
qed

text \<open>An instance: the reconnection after a disconnect.\<close>

theorem C8_connect_resubscribes_fixed_filter_witness:
  "fst (hook_run clock0 NoSocket reconnect_inputs) \<noteq> NoSocket \<and>
   snd (hook_run clock0 NoSocket (reconnect_inputs @ [SocketEvent Connect])) =
     snd (hook_run clock0 NoSocket reconnect_inputs) @
       [Emit ''join_room'' (RoomData ''alerts''),
        Emit ''join_room'' (RoomData ''dashboard''),
        Emit ''subscribe_alerts''
          (SubscribeData [''high'', ''critical'']
             [''traffic'', ''environment'', ''waste'', ''energy'', ''emergency''])]"
proof -
  have h: "fst (hook_run clock0 NoSocket reconnect_inputs) \<noteq> NoSocket"
    by (simp add: reconnect_inputs_def)
  from C8_connect_resubscribes_fixed_filter [OF h] h show ?thesis by simp
qed

text \<open>
  C8 as stated fails: the last filter sent was low and waste, through \<open>emitEvent\<close>; after
  the disconnect and the reconnection the last message is \<open>subscribe_alerts\<close> with the
  handler's filter.
\<close>

theorem C8_reconnect_filter_counterexample:
  "snd (hook_run clock0 NoSocket (reconnect_inputs @ [SocketEvent Connect])) =
     [Emit ''join_room'' (RoomData ''alerts''),
      Emit ''join_room'' (RoomData ''dashboard''),
      Emit ''subscribe_alerts''
        (SubscribeData [''high'', ''critical'']
           [''traffic'', ''environment'', ''waste'', ''energy'', ''emergency'']),
      Emit ''subscribe_alerts'' (SubscribeData [''low''] [''waste'']),
      Emit ''join_room'' (RoomData ''alerts''),
      Emit ''join_room'' (RoomData ''dashboard''),
      Emit ''subscribe_alerts''
        (SubscribeData [''high'', ''critical'']
           [''traffic'', ''environment'', ''waste'', ''energy'', ''emergency''])]"
  by (simp add: reconnect_inputs_def)

text \<open>
  C9. \<open>updateAlert\<close> is framed on \<open>state.alerts\<close>: the array keeps its length and the id
  at every index, and every record whose id is not the payload's is left as it was, also
  when no record has the payload's id.
\<close>

theorem C9_updateAlert_frame:
  "length (alerts (updateAlert state payload)) = length (alerts state) \<and>
   map id_of (alerts (updateAlert state payload)) = map id_of (alerts state) \<and>
   (\<forall>i<length (alerts state).
      id_of (alerts state ! i) \<noteq> p_id payload \<longrightarrow>
      alerts (updateAlert state payload) ! i = alerts state ! i)"
proof (cases "findIndex (\<lambda>a. id_of a = p_id payload) (alerts state)")
  case None
  then show ?thesis by (simp add: updateAlert_def)
next
  case (Some index)
  from findIndex_Some [OF Some]
  have idx: "index < length (alerts state)" "id_of (alerts state ! index) = p_id payload"
    by simp_all
  have upd: "alerts (updateAlert state payload) =
      (alerts state)[index := spread (alerts state ! index) payload]"
    using Some by (simp add: updateAlert_def)
  have ids: "map id_of (alerts (updateAlert state payload)) = map id_of (alerts state)"
    unfolding upd using idx by (simp add: map_update list_update_same_conv)
  have frame: "\<forall>i<length (alerts state).
      id_of (alerts state ! i) \<noteq> p_id payload \<longrightarrow>
      alerts (updateAlert state payload) ! i = alerts state ! i"
    unfolding upd using idx by (auto simp: nth_list_update)
  show ?thesis using ids frame upd by simp
qed

text \<open>An instance: resolving A1 leaves B2, at index 1, as it was.\<close>

theorem C9_updateAlert_frame_witness:
  "(1::nat) < length (alerts (seeded [alert_A1, alert_B2])) \<and>
   id_of (alerts (seeded [alert_A1, alert_B2]) ! 1)
     \<noteq> p_id (resolved_payload ''A1'' (Some ''2024-01-01T12:00:00.000Z'') (Some ''admin'')) \<and>
   alerts (updateAlert (seeded [alert_A1, alert_B2])
      (resolved_payload ''A1'' (Some ''2024-01-01T12:00:00.000Z'') (Some ''admin''))) ! 1
     = alert_B2"
proof -
  have h1: "(1::nat) < length (alerts (seeded [alert_A1, alert_B2]))"
    by (simp add: ex_defs)
  have h2: "id_of (alerts (seeded [alert_A1, alert_B2]) ! 1)
      \<noteq> p_id (resolved_payload ''A1'' (Some ''2024-01-01T12:00:00.000Z'') (Some ''admin''))"
    by (simp add: ex_defs)
  have h3: "alerts (seeded [alert_A1, alert_B2]) ! 1 = alert_B2"
    by (simp add: seeded_def fetchAlerts_fulfilled_def)
  from C9_updateAlert_frame
         [of "seeded [alert_A1, alert_B2]"
             "resolved_payload ''A1'' (Some ''2024-01-01T12:00:00.000Z'') (Some ''admin'')"]
    h1 h2 h3
  show ?thesis by metis
qed

text \<open>
  C10. \<open>addAlert\<close> prepends: the payload becomes the head of \<open>state.alerts\<close>; it becomes
  the head of \<open>state.activeAlerts\<close> when its status is \<open>active\<close>, and \<open>state.activeAlerts\<close>
  is left as it was otherwise. So alerts added one after the other are stored with the
  latest arrival first.
\<close>

theorem C10_addAlert_prepends:
  "alerts (addAlert state payload) = payload # alerts state \<and>
   (status payload = Active \<longrightarrow>
      activeAlerts (addAlert state payload) = payload # activeAlerts state) \<and>
   (status payload \<noteq> Active \<longrightarrow>
      activeAlerts (addAlert state payload) = activeAlerts state) \<and>
   alerts (dispatch_all state (map AddAlert xs)) = rev xs @ alerts state"
  by (simp add: addAlert_def alerts_add_all)

text \<open>An instance of each case: the active A1 and the resolved R3.\<close>

theorem C10_addAlert_prepends_witness:
  "status alert_A1 = Active \<and>
   activeAlerts (addAlert initialState alert_A1) = alert_A1 # activeAlerts initialState \<and>
   status alert_R3 \<noteq> Active \<and>
   activeAlerts (addAlert initialState alert_R3) = activeAlerts initialState"
proof -
  have h1: "status alert_A1 = Active" by (simp add: alert_A1_def)
  have h2: "status alert_R3 \<noteq> Active" by (simp add: alert_R3_def)
  from C10_addAlert_prepends [of initialState alert_A1 "[]"]
       C10_addAlert_prepends [of initialState alert_R3 "[]"] h1 h2
  show ?thesis by blast
qed

end
